theory Spec2Isabelle
  imports Main "HOL-Library.Word" "HOL-Library.Multiset"
begin

section \<open>The rule chain and its administration (dnsdist-lua-rules.cc)\<close>

text \<open>
  A shallow embedding of \<^verbatim>\<open>pdns/dnsdist-lua-rules.cc\<close>: the functions that edit and
  inspect a chain of rule/action entries (\<^verbatim>\<open>rmRule\<close>, \<^verbatim>\<open>moveRuleToTop\<close>, \<^verbatim>\<open>mvRule\<close>,
  \<^verbatim>\<open>getTopRules\<close>), the dispatch \<^verbatim>\<open>makeRule\<close>, and the Lua constructors of the predicates.

  C++ types are modelled as follows. \<^verbatim>\<open>unsigned int\<close> is \<open>32 word\<close>, \<^verbatim>\<open>uint64_t\<close> is
  \<open>64 word\<close>, \<^verbatim>\<open>uint16_t\<close> is \<open>16 word\<close>, \<^verbatim>\<open>uint8_t\<close> is \<open>8 word\<close>; a \<^verbatim>\<open>size_t\<close> that only
  counts or indexes elements of a vector is \<open>nat\<close> (it never exceeds the vector's size).
  A \<^verbatim>\<open>std::vector\<close> is a list, a \<^verbatim>\<open>boost::variant\<close> a datatype, a \<^verbatim>\<open>boost::optional\<close> an
  option, and a thrown exception the left summand of a sum.
\<close>

subsection \<open>Entries and the published state\<close>

type_synonym uuid = "128 word"

text \<open>
  \<^verbatim>\<open>DNSDistRuleAction\<close> (and its response twin; the functions are templates over both).
  \<open>d_matches\<close> is the counter \<^verbatim>\<open>d_rule->d_matches\<close> as \<^verbatim>\<open>load()\<close> reads it.
\<close>

record ('r, 'a) DNSDistRuleAction =
  d_rule :: 'r
  d_matches :: nat
  d_action :: 'a
  d_name :: string
  d_id :: uuid
  d_creationOrder :: "64 word"

text \<open>
  What the administrative functions read and write: the vector published by the
  \<^verbatim>\<open>GlobalStateHolder\<close> (\<^verbatim>\<open>getCopy\<close> reads it, \<^verbatim>\<open>setState\<close> replaces it) and the console's
  \<^verbatim>\<open>g_outputBuffer\<close>.
\<close>

record ('r, 'a) lua_state =
  ruleactions :: "('r, 'a) DNSDistRuleAction list"
  g_outputBuffer :: string

datatype uint_or_string = UInt "32 word" | Str string

definition no_rule_matched :: string where
  "no_rule_matched = ''Error: no rule matched'' @ [CHR 0x0A]"

definition delete_non_existing :: string where
  "delete_non_existing = ''Error: attempt to delete non-existing rule'' @ [CHR 0x0A]"

definition move_invalid_index :: string where
  "move_invalid_index = ''Error: attempt to move rules from/to invalid index'' @ [CHR 0x0A]"

subsection \<open>rmRule\<close>

text \<open>
  \<^verbatim>\<open>rules.erase(std::remove_if(rules.begin(), rules.end(), pred), rules.end())\<close>: the vector
  keeps, in order, the elements that do not satisfy the predicate.
\<close>

definition erase_remove_if :: "('e \<Rightarrow> bool) \<Rightarrow> 'e list \<Rightarrow> 'e list" where
  "erase_remove_if pred rules = filter (\<lambda>a. \<not> pred a) rules"

text \<open>
  The test \<^verbatim>\<open>rules.erase(...) == rules.end()\<close>. \<^verbatim>\<open>erase\<close> returns the iterator after the
  last removed element, which is the end of the shortened vector. C++ leaves open which
  operand of \<^verbatim>\<open>==\<close> is evaluated first, so the right operand \<^verbatim>\<open>rules.end()\<close> is either read
  before the erase (the end of the vector as it was: equal only when nothing was removed)
  or after it (the end of the shortened vector: always equal). Iterators are positions
  in the vector's buffer.
\<close>

datatype operand_order = EndThenErase | EraseThenEnd

definition erase_result_is_end :: "operand_order \<Rightarrow> 'e list \<Rightarrow> 'e list \<Rightarrow> bool" where
  "erase_result_is_end ord before after =
     (length after = (case ord of EndThenErase \<Rightarrow> length before | EraseThenEnd \<Rightarrow> length after))"

text \<open>
  \<^verbatim>\<open>vector::erase(begin() + pos)\<close> and \<^verbatim>\<open>vector::insert(begin() + pos, x)\<close>.
\<close>

definition erase_at :: "nat \<Rightarrow> 'e list \<Rightarrow> 'e list" where
  "erase_at pos rules = take pos rules @ drop (Suc pos) rules"

definition insert_at :: "nat \<Rightarrow> 'e \<Rightarrow> 'e list \<Rightarrow> 'e list" where
  "insert_at pos subject rules = take pos rules @ subject # drop pos rules"

text \<open>
  \<open>getUniqueID\<close> is the UUID parser (declared in another file): \<open>None\<close> when it throws
  \<^verbatim>\<open>std::runtime_error\<close>. A return without \<^verbatim>\<open>setState\<close> leaves the published vector as
  it was.
\<close>

definition rmRule ::
  "operand_order \<Rightarrow> (string \<Rightarrow> uuid option) \<Rightarrow> ('r, 'a) lua_state \<Rightarrow> uint_or_string
    \<Rightarrow> ('r, 'a) lua_state" where
  "rmRule ord getUniqueID st ident =
     (let rules = ruleactions st in
      case ident of
        Str str \<Rightarrow>
          (case getUniqueID str of
             Some uuid \<Rightarrow>
               (let rules' = erase_remove_if (\<lambda>a. d_id a = uuid) rules in
                if erase_result_is_end ord rules rules'
                then st\<lparr>g_outputBuffer := no_rule_matched\<rparr>
                else st\<lparr>ruleactions := rules'\<rparr>)
           | None \<Rightarrow>
               (let rules' = erase_remove_if (\<lambda>a. d_name a = str) rules in
                if erase_result_is_end ord rules rules'
                then st\<lparr>g_outputBuffer := no_rule_matched\<rparr>
                else st\<lparr>ruleactions := rules'\<rparr>))
      | UInt pos \<Rightarrow>
          if length rules \<le> unat pos
          then st\<lparr>g_outputBuffer := delete_non_existing\<rparr>
          else st\<lparr>ruleactions := erase_at (unat pos) rules\<rparr>)"

text \<open>
  The removal as the specification words it (section 4.2, removeById): parse the input as
  a UUID, fall back to the name when parsing fails, remove the first matching entry,
  \<open>None\<close> (NotFound) when no entry matches.
\<close>

fun remove_first :: "('e \<Rightarrow> bool) \<Rightarrow> 'e list \<Rightarrow> 'e list option" where
  "remove_first pred [] = None"
| "remove_first pred (a # rules) =
     (if pred a then Some rules else map_option (Cons a) (remove_first pred rules))"

definition spec_removeById ::
  "(string \<Rightarrow> uuid option) \<Rightarrow> ('r, 'a) DNSDistRuleAction list \<Rightarrow> string
    \<Rightarrow> ('r, 'a) DNSDistRuleAction list option" where
  "spec_removeById getUniqueID rules str =
     (case getUniqueID str of
        Some uuid \<Rightarrow> remove_first (\<lambda>a. d_id a = uuid) rules
      | None \<Rightarrow> remove_first (\<lambda>a. d_name a = str) rules)"

subsection \<open>moveRuleToTop and mvRule\<close>

definition moveRuleToTop :: "('r, 'a) lua_state \<Rightarrow> ('r, 'a) lua_state" where
  "moveRuleToTop st =
     (let rules = ruleactions st in
      if rules = [] then st
      else
        let subject = last rules;
            rules' = butlast rules
        in st\<lparr>ruleactions := insert_at 0 subject rules'\<rparr>)"

definition mvRule :: "('r, 'a) lua_state \<Rightarrow> 32 word \<Rightarrow> 32 word \<Rightarrow> ('r, 'a) lua_state" where
  "mvRule st from to =
     (let rules = ruleactions st in
      if length rules \<le> unat from \<or> length rules < unat to
      then st\<lparr>g_outputBuffer := move_invalid_index\<rparr>
      else
        let subject = rules ! unat from;
            rules' = erase_at (unat from) rules
        in if length rules' < unat to
           then st\<lparr>ruleactions := rules' @ [subject]\<rparr>
           else
             let to' = (if from < to then to - 1 else to)
             in st\<lparr>ruleactions := insert_at (unat to') subject rules'\<rparr>)"

subsection \<open>getTopRules\<close>

text \<open>
  The first loop: one pair (match count, position) per entry, \<open>pos\<close> counting up.
\<close>

fun collect_counts :: "nat \<Rightarrow> ('r, 'a) DNSDistRuleAction list \<Rightarrow> (nat \<times> nat) list" where
  "collect_counts pos [] = []"
| "collect_counts pos (rule # rules) = (d_matches rule, pos) # collect_counts (Suc pos) rules"

text \<open>The comparison handed to \<^verbatim>\<open>sort\<close>: \<^verbatim>\<open>b.first < a.first\<close>.\<close>

definition counts_before :: "nat \<times> nat \<Rightarrow> nat \<times> nat \<Rightarrow> bool" where
  "counts_before a b = (fst b < fst a)"

text \<open>
  \<^verbatim>\<open>sort\<close> is \<^verbatim>\<open>std::sort\<close> of the C++ library, which is not part of the program. The
  program can rely on what the language standard promises of it: the result is a
  rearrangement of the input in which no later element comes before an earlier one under
  the comparison. The order of elements that compare equivalent is not promised
  (\<^verbatim>\<open>std::stable_sort\<close> would promise it). \<^verbatim>\<open>getTopRules\<close> therefore takes the sort as a
  parameter, and \<open>sort_result\<close> is the promise. The \<^verbatim>\<open>std::sort\<close> of the GNU C++ library
  is modelled further below.
\<close>

definition sort_result :: "(nat \<times> nat) list \<Rightarrow> (nat \<times> nat) list \<Rightarrow> bool" where
  "sort_result input output =
     (mset output = mset input \<and> sorted_wrt (\<lambda>a b. \<not> counts_before b a) output)"

text \<open>
  The exceptions of the vector operations: \<^verbatim>\<open>std::bad_alloc\<close> from \<^verbatim>\<open>reserve\<close> and
  \<^verbatim>\<open>std::out_of_range\<close> from \<^verbatim>\<open>at\<close>.
\<close>

datatype vector_exception = BadAlloc | OutOfRange

text \<open>
  \<^verbatim>\<open>results.reserve(top)\<close> on the empty vector \<^verbatim>\<open>results\<close>. For \<open>n = 0\<close> nothing is
  requested. Otherwise storage for \<open>n\<close> entries is requested, and \<open>allocates n\<close> says
  whether the allocator grants it; when it does not, \<^verbatim>\<open>std::bad_alloc\<close> leaves
  \<^verbatim>\<open>getTopRules\<close>. \<open>n\<close> comes from an \<^verbatim>\<open>unsigned int\<close> the caller chooses and is far below
  the vector's \<^verbatim>\<open>max_size()\<close>. The other allocations of \<^verbatim>\<open>getTopRules\<close> (the pairs of
  \<^verbatim>\<open>counts\<close>, and \<^verbatim>\<open>results\<close> growing past what was reserved) are never larger than the
  chain itself and are taken to succeed.
\<close>

definition reserve :: "(nat \<Rightarrow> bool) \<Rightarrow> nat \<Rightarrow> vector_exception + unit" where
  "reserve allocates n = (if n = 0 \<or> allocates n then Inr () else Inl BadAlloc)"

text \<open>
  The second loop: push \<^verbatim>\<open>rules.at(entry.second)\<close>, count it, and leave the loop when the
  count equals \<^verbatim>\<open>top\<close> (here \<open>top'\<close>; \<open>cnt\<close> is \<^verbatim>\<open>count\<close> before the entry is
  pushed). \<^verbatim>\<open>at\<close> throws \<^verbatim>\<open>std::out_of_range\<close> for a position outside the vector.
\<close>

fun take_top ::
  "('r, 'a) DNSDistRuleAction list \<Rightarrow> nat \<Rightarrow> nat \<Rightarrow> (nat \<times> nat) list
    \<Rightarrow> vector_exception + ('r, 'a) DNSDistRuleAction list" where
  "take_top rules top' cnt [] = Inr []"
| "take_top rules top' cnt (entry # counts) =
     (if length rules \<le> snd entry then Inl OutOfRange
      else if Suc cnt = top' then Inr [rules ! snd entry]
      else
        (case take_top rules top' (Suc cnt) counts of
           Inl e \<Rightarrow> Inl e
         | Inr results \<Rightarrow> Inr (rules ! snd entry # results)))"

definition getTopRules ::
  "(nat \<Rightarrow> bool) \<Rightarrow> ((nat \<times> nat) list \<Rightarrow> (nat \<times> nat) list)
    \<Rightarrow> ('r, 'a) DNSDistRuleAction list \<Rightarrow> 32 word
    \<Rightarrow> vector_exception + ('r, 'a) DNSDistRuleAction list" where
  "getTopRules allocates std_sort rules top' =
     (let counts = std_sort (collect_counts 0 rules) in
      case reserve allocates (unat top') of
        Inl e \<Rightarrow> Inl e
      | Inr _ \<Rightarrow> take_top rules (unat top') 0 counts)"

text \<open>
  An insertion sort that keeps the promise of \<^verbatim>\<open>std::sort\<close> and leaves equal counts in
  their order, for running \<^verbatim>\<open>getTopRules\<close> on short concrete chains.
\<close>

fun insert_count :: "nat \<times> nat \<Rightarrow> (nat \<times> nat) list \<Rightarrow> (nat \<times> nat) list" where
  "insert_count x [] = [x]"
| "insert_count x (y # ys) =
     (if counts_before x y then x # y # ys else y # insert_count x ys)"

definition insertion_sort :: "(nat \<times> nat) list \<Rightarrow> (nat \<times> nat) list" where
  "insertion_sort xs = foldl (\<lambda>sorted x. insert_count x sorted) [] xs"


subsection \<open>std::sort as the GNU C++ library has it\<close>

text \<open>
  The \<^verbatim>\<open>std::sort\<close> a build with the GNU C++ library (libstdc++, \<^verbatim>\<open>bits/stl_algo.h\<close> and
  \<^verbatim>\<open>bits/stl_heap.h\<close>) runs: \<^verbatim>\<open>__introsort_loop\<close> partitions ranges of more than 16
  elements around a median of three, falling back on heap sort when its depth limit is
  used up, and \<^verbatim>\<open>__final_insertion_sort\<close> finishes with insertion sort. The functions
  keep the library's names without the leading underscores, with the prefix \<open>gnu\<close>.
  The vector is a list, an iterator the index it points at; \<open>cmp\<close> is the comparison, \<open>lst\<close>
  the iterator \<^verbatim>\<open>__last\<close>. The library's unguarded loops rely on the comparison being a
  strict weak order to stay inside the range; the model stops them at the ends of the
  vector.
\<close>

definition S_threshold :: nat where
  "S_threshold = 16"

definition iter_swap :: "nat \<Rightarrow> nat \<Rightarrow> 'a list \<Rightarrow> 'a list" where
  "iter_swap i j xs = xs[i := xs ! j, j := xs ! i]"

definition gnu_move_median_to_first ::
  "('a \<Rightarrow> 'a \<Rightarrow> bool) \<Rightarrow> nat \<Rightarrow> nat \<Rightarrow> nat \<Rightarrow> nat \<Rightarrow> 'a list \<Rightarrow> 'a list" where
  "gnu_move_median_to_first cmp result a b c xs =
     (if cmp (xs ! a) (xs ! b) then
        (if cmp (xs ! b) (xs ! c) then iter_swap result b xs
         else if cmp (xs ! a) (xs ! c) then iter_swap result c xs
         else iter_swap result a xs)
      else if cmp (xs ! a) (xs ! c) then iter_swap result a xs
      else if cmp (xs ! b) (xs ! c) then iter_swap result c xs
      else iter_swap result b xs)"

text \<open>
  \<^verbatim>\<open>__unguarded_partition\<close>. Its two inner loops: \<^verbatim>\<open>while (comp(first, pivot)) ++first\<close> and
  \<^verbatim>\<open>while (comp(pivot, last)) --last\<close>.
\<close>

function scan_up :: "('a \<Rightarrow> 'a \<Rightarrow> bool) \<Rightarrow> 'a list \<Rightarrow> nat \<Rightarrow> nat \<Rightarrow> nat" where
  "scan_up cmp xs pivot first =
     (if first < length xs \<and> cmp (xs ! first) (xs ! pivot)
      then scan_up cmp xs pivot (Suc first) else first)"
  by pat_completeness auto
termination
  by (relation "measure (\<lambda>(cmp, xs, pivot, first). length xs - first)") auto

fun scan_down :: "('a \<Rightarrow> 'a \<Rightarrow> bool) \<Rightarrow> 'a list \<Rightarrow> nat \<Rightarrow> nat \<Rightarrow> nat" where
  "scan_down cmp xs pivot 0 = 0"
| "scan_down cmp xs pivot (Suc lst) =
     (if cmp (xs ! pivot) (xs ! Suc lst) then scan_down cmp xs pivot lst else Suc lst)"

function gnu_unguarded_partition ::
  "('a \<Rightarrow> 'a \<Rightarrow> bool) \<Rightarrow> nat \<Rightarrow> nat \<Rightarrow> nat \<Rightarrow> 'a list \<Rightarrow> nat \<times> 'a list" where
  "gnu_unguarded_partition cmp first lst pivot xs =
     (let first' = scan_up cmp xs pivot first;
          lst' = scan_down cmp xs pivot (lst - 1)
      in if \<not> first' < lst' then (first', xs)
         else gnu_unguarded_partition cmp (Suc first') lst' pivot (iter_swap first' lst' xs))"
  by pat_completeness auto
termination
proof (relation "measure (\<lambda>(cmp, first, lst, pivot, xs). lst)")
  show "wf (measure (\<lambda>(cmp, first, lst, pivot, xs). lst))" by simp
next
  fix cmp :: "'a \<Rightarrow> 'a \<Rightarrow> bool" and first lst pivot :: nat and xs :: "'a list" and x xa
  assume x: "x = scan_up cmp xs pivot first"
    and xa: "xa = scan_down cmp xs pivot (lst - 1)"
    and lt: "\<not> \<not> x < xa"
  have le: "scan_down cmp xs pivot j \<le> j" for j
    by (induction j) auto
  from lt have "0 < xa" by simp
  moreover from xa le have "xa \<le> lst - 1" by simp
  ultimately have "xa < lst" by simp
  then show "((cmp, Suc x, xa, pivot, iter_swap x xa xs), cmp, first, lst, pivot, xs)
      \<in> measure (\<lambda>(cmp, first, lst, pivot, xs). lst)"
    by simp
qed

definition gnu_unguarded_partition_pivot ::
  "('a \<Rightarrow> 'a \<Rightarrow> bool) \<Rightarrow> nat \<Rightarrow> nat \<Rightarrow> 'a list \<Rightarrow> nat \<times> 'a list" where
  "gnu_unguarded_partition_pivot cmp first lst xs =
     (let mid = first + (lst - first) div 2;
          xs' = gnu_move_median_to_first cmp first (first + 1) mid (lst - 1) xs
      in gnu_unguarded_partition cmp (first + 1) lst first xs')"

text \<open>
  The heap sort of \<^verbatim>\<open>__partial_sort\<close>. The library's indices are signed; they are never
  negative here, and the one test in which a negative value could show
  (\<^verbatim>\<open>(len - 2) / 2\<close> for \<open>len = 0\<close>) excludes it by \<open>len \<noteq> 0\<close>.
\<close>

function gnu_push_heap ::
  "('a \<Rightarrow> 'a \<Rightarrow> bool) \<Rightarrow> nat \<Rightarrow> nat \<Rightarrow> nat \<Rightarrow> 'a \<Rightarrow> 'a list \<Rightarrow> 'a list" where
  "gnu_push_heap cmp first holeIndex topIndex v xs =
     (let parent = (holeIndex - 1) div 2 in
      if topIndex < holeIndex \<and> cmp (xs ! (first + parent)) v
      then gnu_push_heap cmp first parent topIndex v (xs[first + holeIndex := xs ! (first + parent)])
      else xs[first + holeIndex := v])"
  by pat_completeness auto
termination
  by (relation "measure (\<lambda>(cmp, first, holeIndex, topIndex, v, xs). holeIndex)") auto

function gnu_adjust_heap_loop ::
  "('a \<Rightarrow> 'a \<Rightarrow> bool) \<Rightarrow> nat \<Rightarrow> nat \<Rightarrow> nat \<Rightarrow> nat \<Rightarrow> 'a list \<Rightarrow> nat \<times> nat \<times> 'a list" where
  "gnu_adjust_heap_loop cmp first len holeIndex secondChild xs =
     (if secondChild < (len - 1) div 2 then
        (let sc = 2 * (secondChild + 1);
             sc' = (if cmp (xs ! (first + sc)) (xs ! (first + (sc - 1))) then sc - 1 else sc)
         in gnu_adjust_heap_loop cmp first len sc' sc' (xs[first + holeIndex := xs ! (first + sc')]))
      else (holeIndex, secondChild, xs))"
  by pat_completeness auto
termination
  by (relation "measure (\<lambda>(cmp, first, len, holeIndex, secondChild, xs). len - secondChild)") auto

definition gnu_adjust_heap ::
  "('a \<Rightarrow> 'a \<Rightarrow> bool) \<Rightarrow> nat \<Rightarrow> nat \<Rightarrow> nat \<Rightarrow> 'a \<Rightarrow> 'a list \<Rightarrow> 'a list" where
  "gnu_adjust_heap cmp first holeIndex len v xs =
     (let topIndex = holeIndex;
          (holeIndex1, secondChild1, xs1) = gnu_adjust_heap_loop cmp first len holeIndex holeIndex xs;
          (holeIndex2, xs2) =
            (if len mod 2 = 0 \<and> len \<noteq> 0 \<and> secondChild1 = (len - 2) div 2
             then (let sc = 2 * (secondChild1 + 1)
                   in (sc - 1, xs1[first + holeIndex1 := xs1 ! (first + (sc - 1))]))
             else (holeIndex1, xs1))
      in gnu_push_heap cmp first holeIndex2 topIndex v xs2)"

fun gnu_make_heap_loop ::
  "('a \<Rightarrow> 'a \<Rightarrow> bool) \<Rightarrow> nat \<Rightarrow> nat \<Rightarrow> nat \<Rightarrow> 'a list \<Rightarrow> 'a list" where
  "gnu_make_heap_loop cmp first len 0 xs = gnu_adjust_heap cmp first 0 len (xs ! first) xs"
| "gnu_make_heap_loop cmp first len (Suc parent) xs =
     gnu_make_heap_loop cmp first len parent
       (gnu_adjust_heap cmp first (Suc parent) len (xs ! (first + Suc parent)) xs)"

definition gnu_make_heap :: "('a \<Rightarrow> 'a \<Rightarrow> bool) \<Rightarrow> nat \<Rightarrow> nat \<Rightarrow> 'a list \<Rightarrow> 'a list" where
  "gnu_make_heap cmp first lst xs =
     (if lst - first < 2 then xs
      else gnu_make_heap_loop cmp first (lst - first) ((lst - first - 2) div 2) xs)"

definition gnu_pop_heap ::
  "('a \<Rightarrow> 'a \<Rightarrow> bool) \<Rightarrow> nat \<Rightarrow> nat \<Rightarrow> nat \<Rightarrow> 'a list \<Rightarrow> 'a list" where
  "gnu_pop_heap cmp first lst result xs =
     (let v = xs ! result;
          xs' = xs[result := xs ! first]
      in gnu_adjust_heap cmp first 0 (lst - first) v xs')"

function gnu_heap_select_loop ::
  "('a \<Rightarrow> 'a \<Rightarrow> bool) \<Rightarrow> nat \<Rightarrow> nat \<Rightarrow> nat \<Rightarrow> nat \<Rightarrow> 'a list \<Rightarrow> 'a list" where
  "gnu_heap_select_loop cmp first middle lst i xs =
     (if i < lst then
        gnu_heap_select_loop cmp first middle lst (Suc i)
          (if cmp (xs ! i) (xs ! first) then gnu_pop_heap cmp first middle i xs else xs)
      else xs)"
  by pat_completeness auto
termination
  by (relation "measure (\<lambda>(cmp, first, middle, lst, i, xs). lst - i)") auto

function gnu_sort_heap :: "('a \<Rightarrow> 'a \<Rightarrow> bool) \<Rightarrow> nat \<Rightarrow> nat \<Rightarrow> 'a list \<Rightarrow> 'a list" where
  "gnu_sort_heap cmp first lst xs =
     (if 1 < lst - first
      then gnu_sort_heap cmp first (lst - 1) (gnu_pop_heap cmp first (lst - 1) (lst - 1) xs)
      else xs)"
  by pat_completeness auto
termination
  by (relation "measure (\<lambda>(cmp, first, lst, xs). lst)") auto

definition gnu_partial_sort ::
  "('a \<Rightarrow> 'a \<Rightarrow> bool) \<Rightarrow> nat \<Rightarrow> nat \<Rightarrow> nat \<Rightarrow> 'a list \<Rightarrow> 'a list" where
  "gnu_partial_sort cmp first middle lst xs =
     gnu_sort_heap cmp first middle
       (gnu_heap_select_loop cmp first middle lst middle (gnu_make_heap cmp first middle xs))"

text \<open>
  \<^verbatim>\<open>__introsort_loop\<close>, by recursion on its depth limit: each round of its loop uses one
  unit of it, for the recursive call on the upper part and for the next round on the
  lower part alike.
\<close>

primrec gnu_introsort_loop ::
  "('a \<Rightarrow> 'a \<Rightarrow> bool) \<Rightarrow> nat \<Rightarrow> nat \<Rightarrow> nat \<Rightarrow> 'a list \<Rightarrow> 'a list" where
  "gnu_introsort_loop cmp 0 = (\<lambda>first lst xs.
     if S_threshold < lst - first then gnu_partial_sort cmp first lst lst xs else xs)"
| "gnu_introsort_loop cmp (Suc depth_limit) = (\<lambda>first lst xs.
     if S_threshold < lst - first then
       (let (cut, xs') = gnu_unguarded_partition_pivot cmp first lst xs;
            xs'' = gnu_introsort_loop cmp depth_limit cut lst xs'
        in gnu_introsort_loop cmp depth_limit first cut xs'')
     else xs)"

text \<open>
  The insertion sorts. \<^verbatim>\<open>__unguarded_linear_insert\<close> moves the value at \<open>lst\<close> down past
  every element it comes before; \<^verbatim>\<open>__insertion_sort\<close> puts an element that comes before
  the first one at the front (\<^verbatim>\<open>move_backward\<close>, then the assignment to \<^verbatim>\<open>*first\<close>) and
  inserts every other one unguarded. Its loop runs while \<^verbatim>\<open>i != last\<close>, which is
  \<open>i < lst\<close> for an \<open>i\<close> that starts at or below \<open>lst\<close>.
\<close>

fun gnu_linear_insert_loop :: "('a \<Rightarrow> 'a \<Rightarrow> bool) \<Rightarrow> 'a \<Rightarrow> nat \<Rightarrow> 'a list \<Rightarrow> 'a list" where
  "gnu_linear_insert_loop cmp v 0 xs = xs[0 := v]"
| "gnu_linear_insert_loop cmp v (Suc next) xs =
     (if cmp v (xs ! next)
      then gnu_linear_insert_loop cmp v next (xs[Suc next := xs ! next])
      else xs[Suc next := v])"

definition gnu_unguarded_linear_insert :: "('a \<Rightarrow> 'a \<Rightarrow> bool) \<Rightarrow> nat \<Rightarrow> 'a list \<Rightarrow> 'a list" where
  "gnu_unguarded_linear_insert cmp lst xs = gnu_linear_insert_loop cmp (xs ! lst) lst xs"

definition move_backward_and_put :: "nat \<Rightarrow> nat \<Rightarrow> 'a list \<Rightarrow> 'a list" where
  "move_backward_and_put first i xs =
     take first xs @ xs ! i # take (i - first) (drop first xs) @ drop (Suc i) xs"

function gnu_insertion_sort_loop ::
  "('a \<Rightarrow> 'a \<Rightarrow> bool) \<Rightarrow> nat \<Rightarrow> nat \<Rightarrow> nat \<Rightarrow> 'a list \<Rightarrow> 'a list" where
  "gnu_insertion_sort_loop cmp first lst i xs =
     (if i < lst then
        gnu_insertion_sort_loop cmp first lst (Suc i)
          (if cmp (xs ! i) (xs ! first) then move_backward_and_put first i xs
           else gnu_unguarded_linear_insert cmp i xs)
      else xs)"
  by pat_completeness auto
termination
  by (relation "measure (\<lambda>(cmp, first, lst, i, xs). lst - i)") auto

definition gnu_insertion_sort :: "('a \<Rightarrow> 'a \<Rightarrow> bool) \<Rightarrow> nat \<Rightarrow> nat \<Rightarrow> 'a list \<Rightarrow> 'a list" where
  "gnu_insertion_sort cmp first lst xs =
     (if first = lst then xs else gnu_insertion_sort_loop cmp first lst (first + 1) xs)"

function gnu_unguarded_insertion_sort ::
  "('a \<Rightarrow> 'a \<Rightarrow> bool) \<Rightarrow> nat \<Rightarrow> nat \<Rightarrow> 'a list \<Rightarrow> 'a list" where
  "gnu_unguarded_insertion_sort cmp i lst xs =
     (if i < lst
      then gnu_unguarded_insertion_sort cmp (Suc i) lst (gnu_unguarded_linear_insert cmp i xs)
      else xs)"
  by pat_completeness auto
termination
  by (relation "measure (\<lambda>(cmp, i, lst, xs). lst - i)") auto

definition gnu_final_insertion_sort ::
  "('a \<Rightarrow> 'a \<Rightarrow> bool) \<Rightarrow> nat \<Rightarrow> nat \<Rightarrow> 'a list \<Rightarrow> 'a list" where
  "gnu_final_insertion_sort cmp first lst xs =
     (if S_threshold < lst - first
      then gnu_unguarded_insertion_sort cmp (first + S_threshold) lst
             (gnu_insertion_sort cmp first (first + S_threshold) xs)
      else gnu_insertion_sort cmp first lst xs)"

text \<open>\<^verbatim>\<open>std::__lg\<close>, the binary logarithm rounded down, gives the depth limit.\<close>

fun gnu_lg :: "nat \<Rightarrow> nat" where
  "gnu_lg n = (if n < 2 then 0 else Suc (gnu_lg (n div 2)))"

definition gnu_std_sort :: "('a \<Rightarrow> 'a \<Rightarrow> bool) \<Rightarrow> 'a list \<Rightarrow> 'a list" where
  "gnu_std_sort cmp xs =
     (if xs = [] then xs
      else gnu_final_insertion_sort cmp 0 (length xs)
             (gnu_introsort_loop cmp (gnu_lg (length xs) * 2) 0 (length xs) xs))"

section \<open>Predicates and their construction\<close>

text \<open>
  The predicates this development needs, each with the arguments its C++ constructor
  is called with. \<open>'m\<close> is a parsed network mask, \<open>'n\<close> a \<^verbatim>\<open>DNSName\<close>. A \<^verbatim>\<open>NetmaskGroup\<close>
  is the list of masks added to it, a \<^verbatim>\<open>SuffixMatchNode\<close> the list of names added to it,
  in the order of the calls.

  \<open>SuffixMatchNodeRule smn quiet\<close>, \<open>NetmaskGroupRule nmg src quiet\<close>;
  \<open>MaxQPSIPRule qps burst ipv4trunc ipv6trunc expiration cleanupDelay scanFraction\<close>;
  \<open>RecordsCountRule section minCount maxCount\<close>;
  \<open>RecordsTypeCountRule section type minCount maxCount\<close>;
  \<open>QNameLabelsCountRule minLabelsCount maxLabelsCount\<close>.
\<close>

datatype ('m, 'n) DNSRule =
    SuffixMatchNodeRule "'n list" bool
  | NetmaskGroupRule "'m list" bool bool
  | MaxQPSIPRule "32 word" "32 word" "32 word" "32 word" "32 word" "32 word" "32 word"
  | QTypeRule "16 word"
  | QClassRule "16 word"
  | OpcodeRule "8 word"
  | DSTPortRule "16 word"
  | RecordsCountRule "8 word" "16 word" "16 word"
  | RecordsTypeCountRule "8 word" "16 word" "16 word" "16 word"
  | QNameLabelsCountRule "32 word" "32 word"
  | RCodeRule "8 word"
  | ERCodeRule "8 word"
  | EDNSVersionRule "8 word"
  | EDNSOptionRule "16 word"

subsection \<open>makeRule\<close>

text \<open>\<^verbatim>\<open>luadnsrule_t\<close>, the variant \<^verbatim>\<open>makeRule\<close> dispatches on.\<close>

datatype ('m, 'n) luadnsrule_t =
    Var_DNSRule "('m, 'n) DNSRule"
  | Var_string string
  | Var_string_array "string list"
  | Var_DNSName 'n
  | Var_DNSName_array "'n list"

text \<open>
  The lambda \<^verbatim>\<open>add\<close> on the pair (\<open>smn\<close>, \<open>nmg\<close>) it captures. \<open>addMask\<close> is the mask parser
  of \<^verbatim>\<open>NetmaskGroup::addMask\<close>, \<open>None\<close> when it throws; \<open>DNSName\<close> is the constructor of
  \<^verbatim>\<open>DNSName\<close> from a string. Both are declared outside this file and are parameters here;
  the \<^verbatim>\<open>DNSName\<close> constructor is taken as total (the catch-all of the specification,
  section 7).
\<close>

definition add ::
  "(string \<Rightarrow> 'm option) \<Rightarrow> (string \<Rightarrow> 'n) \<Rightarrow> string \<Rightarrow> 'n list \<times> 'm list \<Rightarrow> 'n list \<times> 'm list" where
  "add addMask DNSName src acc =
     (case addMask src of
        Some netmask \<Rightarrow> (fst acc, snd acc @ [netmask])
      | None \<Rightarrow> (fst acc @ [DNSName src], snd acc))"

text \<open>
  Modelled from the spec: the default \<^verbatim>\<open>quiet = false\<close> of the constructors of
  \<^verbatim>\<open>SuffixMatchNodeRule\<close> and \<^verbatim>\<open>NetmaskGroupRule\<close>, which are declared in another file.
  \<^verbatim>\<open>makeRule\<close> passes no \<^verbatim>\<open>quiet\<close>, and section 4.3 has its result "non-quiet"; the Lua
  constructors of the two predicates in this file pass \<^verbatim>\<open>false\<close> for an omitted \<^verbatim>\<open>quiet\<close>
  as well. The default is written out in the result.
\<close>

definition makeRule ::
  "(string \<Rightarrow> 'm option) \<Rightarrow> (string \<Rightarrow> 'n) \<Rightarrow> ('m, 'n) luadnsrule_t \<Rightarrow> ('m, 'n) DNSRule" where
  "makeRule addMask DNSName var =
     (case var of
        Var_DNSRule rule \<Rightarrow> rule
      | _ \<Rightarrow>
        (let (smn, nmg) =
           (case var of
              Var_string src \<Rightarrow> add addMask DNSName src ([], [])
            | Var_string_array srcs \<Rightarrow> fold (add addMask DNSName) srcs ([], [])
            | Var_DNSName name \<Rightarrow> ([name], [])
            | Var_DNSName_array names \<Rightarrow> (names, [])
            | Var_DNSRule rule \<Rightarrow> ([], []))
         in if nmg = [] then SuffixMatchNodeRule smn False
            else NetmaskGroupRule nmg True False))"

subsection \<open>The Lua constructors\<close>

datatype lua_error =
    ParameterOutOfRange string nat nat
  | UnableToConvert string

text \<open>
  Modelled from the spec: \<^verbatim>\<open>checkParameterBound\<close>, which is called here and defined in
  another file. Section 6 has a numeric parameter that arrives as a wider integer
  "range-checked against the target field's bit width and rejected with a descriptive
  error if out of range (e.g., a value intended to fit an 8-bit record-section field must
  be 0-255)"; section 7 names the error \<open>ParameterOutOfRange\<close>. The error carries the
  constructor's name, the value and the bound.
\<close>

definition checkParameterBound :: "string \<Rightarrow> 64 word \<Rightarrow> nat \<Rightarrow> lua_error + unit" where
  "checkParameterBound parameter v bound =
     (if bound < unat v then Inl (ParameterOutOfRange parameter (unat v) bound) else Inr ())"

definition uint8_max :: nat where "uint8_max = 255"
definition uint16_max :: nat where "uint16_max = 65535"
definition uint_max :: nat where "uint_max = 4294967295"

text \<open>Statements in sequence, the first exception ending the call.\<close>

definition and_then :: "lua_error + unit \<Rightarrow> lua_error + 'x \<Rightarrow> lua_error + 'x" where
  "and_then check rest = (case check of Inl e \<Rightarrow> Inl e | Inr _ \<Rightarrow> rest)"

text \<open>
  \<^verbatim>\<open>MaxQPSIPRule\<close>: the Lua arguments in their order, the constructor's arguments in
  theirs; \<^verbatim>\<open>get_value_or\<close> is \<open>case_option\<close>.
\<close>

definition get_value_or :: "'x option \<Rightarrow> 'x \<Rightarrow> 'x" where
  "get_value_or opt dflt = (case opt of None \<Rightarrow> dflt | Some v \<Rightarrow> v)"

definition lua_MaxQPSIPRule ::
  "32 word \<Rightarrow> 32 word option \<Rightarrow> 32 word option \<Rightarrow> 32 word option \<Rightarrow> 32 word option
    \<Rightarrow> 32 word option \<Rightarrow> 32 word option \<Rightarrow> ('m, 'n) DNSRule" where
  "lua_MaxQPSIPRule qps ipv4trunc ipv6trunc burst expiration cleanupDelay scanFraction =
     MaxQPSIPRule qps (get_value_or burst qps) (get_value_or ipv4trunc 32)
       (get_value_or ipv6trunc 64) (get_value_or expiration 300)
       (get_value_or cleanupDelay 60) (get_value_or scanFraction 10)"

text \<open>
  \<^verbatim>\<open>QTypeRule\<close>: a number is assigned to the \<^verbatim>\<open>uint16_t qtype\<close>, which keeps its low 16
  bits; a string goes through \<^verbatim>\<open>QType::chartocode\<close> (a parameter), and code 0 throws.
\<close>

definition lua_QTypeRule :: "(string \<Rightarrow> 16 word) \<Rightarrow> uint_or_string \<Rightarrow> lua_error + ('m, 'n) DNSRule" where
  "lua_QTypeRule chartocode str =
     (case str of
        UInt dir \<Rightarrow> Inr (QTypeRule (ucast dir))
      | Str val \<Rightarrow>
          (let qtype = chartocode val in
           if qtype = 0 then Inl (UnableToConvert val) else Inr (QTypeRule qtype)))"

text \<open>
  The constructors that check their arguments. Each takes \<^verbatim>\<open>uint64_t\<close> arguments, checks
  them in order and hands them to the C++ constructor, which narrows them to the
  field's width. The predicates' classes are declared in another file; the width of a
  field is the one whose maximum the check compares with
  (\<^verbatim>\<open>std::numeric_limits<uint8_t>::max()\<close> for an 8-bit field, and so on).
\<close>

definition lua_QClassRule :: "64 word \<Rightarrow> lua_error + ('m, 'n) DNSRule" where
  "lua_QClassRule c =
     and_then (checkParameterBound ''QClassRule'' c uint16_max) (Inr (QClassRule (ucast c)))"

definition lua_OpcodeRule :: "64 word \<Rightarrow> lua_error + ('m, 'n) DNSRule" where
  "lua_OpcodeRule code =
     and_then (checkParameterBound ''OpcodeRule'' code uint8_max) (Inr (OpcodeRule (ucast code)))"

definition lua_DSTPortRule :: "64 word \<Rightarrow> lua_error + ('m, 'n) DNSRule" where
  "lua_DSTPortRule port =
     and_then (checkParameterBound ''DSTPortRule'' port uint16_max) (Inr (DSTPortRule (ucast port)))"

definition lua_RecordsCountRule :: "64 word \<Rightarrow> 64 word \<Rightarrow> 64 word \<Rightarrow> lua_error + ('m, 'n) DNSRule" where
  "lua_RecordsCountRule section' minCount maxCount =
     and_then (checkParameterBound ''RecordsCountRule'' section' uint8_max)
    (and_then (checkParameterBound ''RecordsCountRule'' minCount uint16_max)
    (and_then (checkParameterBound ''RecordsCountRule'' maxCount uint16_max)
      (Inr (RecordsCountRule (ucast section') (ucast minCount) (ucast maxCount)))))"

definition lua_RecordsTypeCountRule ::
  "64 word \<Rightarrow> 64 word \<Rightarrow> 64 word \<Rightarrow> 64 word \<Rightarrow> lua_error + ('m, 'n) DNSRule" where
  "lua_RecordsTypeCountRule section' type' minCount maxCount =
     and_then (checkParameterBound ''RecordsTypeCountRule'' section' uint8_max)
    (and_then (checkParameterBound ''RecordsTypeCountRule'' type' uint16_max)
    (and_then (checkParameterBound ''RecordsTypeCountRule'' minCount uint16_max)
    (and_then (checkParameterBound ''RecordsTypeCountRule'' maxCount uint16_max)
      (Inr (RecordsTypeCountRule (ucast section') (ucast type') (ucast minCount) (ucast maxCount))))))"

definition lua_QNameLabelsCountRule :: "64 word \<Rightarrow> 64 word \<Rightarrow> lua_error + ('m, 'n) DNSRule" where
  "lua_QNameLabelsCountRule minLabelsCount maxLabelsCount =
     and_then (checkParameterBound ''QNameLabelsCountRule'' minLabelsCount uint_max)
    (and_then (checkParameterBound ''QNameLabelsCountRule'' maxLabelsCount uint_max)
      (Inr (QNameLabelsCountRule (ucast minLabelsCount) (ucast maxLabelsCount))))"

definition lua_RCodeRule :: "64 word \<Rightarrow> lua_error + ('m, 'n) DNSRule" where
  "lua_RCodeRule rcode =
     and_then (checkParameterBound ''RCodeRule'' rcode uint8_max) (Inr (RCodeRule (ucast rcode)))"

definition lua_ERCodeRule :: "64 word \<Rightarrow> lua_error + ('m, 'n) DNSRule" where
  "lua_ERCodeRule rcode =
     and_then (checkParameterBound ''ERCodeRule'' rcode uint8_max) (Inr (ERCodeRule (ucast rcode)))"

definition lua_EDNSVersionRule :: "64 word \<Rightarrow> lua_error + ('m, 'n) DNSRule" where
  "lua_EDNSVersionRule version =
     and_then (checkParameterBound ''EDNSVersionRule'' version uint8_max)
       (Inr (EDNSVersionRule (ucast version)))"

definition lua_EDNSOptionRule :: "64 word \<Rightarrow> lua_error + ('m, 'n) DNSRule" where
  "lua_EDNSOptionRule optcode =
     and_then (checkParameterBound ''EDNSOptionRule'' optcode uint16_max)
       (Inr (EDNSOptionRule (ucast optcode)))"

section \<open>Sample chains and parsers\<close>

text \<open>
  Concrete entries, states and parsers on which the functions are run below. The
  sample UUID parser accepts two UUID strings, the sample mask parser two masks, the
  sample type table knows two type names; every other string is refused by them. The
  sample allocator grants storage for up to a million entries.
\<close>

definition sample_rule :: "string \<Rightarrow> uuid \<Rightarrow> nat \<Rightarrow> (unit, unit) DNSDistRuleAction" where
  "sample_rule name ident matches =
     \<lparr>d_rule = (), d_matches = matches, d_action = (), d_name = name, d_id = ident,
      d_creationOrder = ucast ident\<rparr>"

definition sample_state :: "(unit, unit) DNSDistRuleAction list \<Rightarrow> (unit, unit) lua_state" where
  "sample_state rules = \<lparr>ruleactions = rules, g_outputBuffer = []\<rparr>"

definition sample_getUniqueID :: "string \<Rightarrow> uuid option" where
  "sample_getUniqueID str =
     (if str = ''00000000-0000-0000-0000-000000000001'' then Some 1
      else if str = ''00000000-0000-0000-0000-000000000009'' then Some 9
      else None)"

definition sample_addMask :: "string \<Rightarrow> string option" where
  "sample_addMask src =
     (if src = ''10.0.0.0/8'' \<or> src = ''192.168.0.0/16'' then Some src else None)"

definition sample_chartocode :: "string \<Rightarrow> 16 word" where
  "sample_chartocode val = (if val = ''A'' then 1 else if val = ''AAAA'' then 28 else 0)"

definition sample_allocates :: "nat \<Rightarrow> bool" where
  "sample_allocates n = (n \<le> 1000000)"

definition rule_A :: "(unit, unit) DNSDistRuleAction" where
  "rule_A = sample_rule ''a'' 1 5"

definition rule_B :: "(unit, unit) DNSDistRuleAction" where
  "rule_B = sample_rule ''b'' 2 5"

definition rule_C :: "(unit, unit) DNSDistRuleAction" where
  "rule_C = sample_rule ''c'' 3 7"

definition rule_A2 :: "(unit, unit) DNSDistRuleAction" where
  "rule_A2 = sample_rule ''a'' 4 0"

text \<open>A chain of 17 entries that all have the same match count.\<close>

definition tied_rule :: "nat \<Rightarrow> (unit, unit) DNSDistRuleAction" where
  "tied_rule i = sample_rule ''tied'' (of_nat i) 5"

definition tied_chain :: "(unit, unit) DNSDistRuleAction list" where
  "tied_chain = map tied_rule [0, 1, 2, 3, 4, 5, 6, 7, 8, 9, 10, 11, 12, 13, 14, 15, 16]"

section \<open>Properties\<close>

lemmas sample_defs =
  rule_A_def rule_B_def rule_C_def rule_A2_def sample_rule_def sample_state_def
  sample_getUniqueID_def sample_addMask_def sample_chartocode_def

lemmas sort_defs =
  getTopRules_def reserve_def insertion_sort_def counts_before_def sort_result_def

subsection \<open>Erasing and inserting at a position\<close>

lemma insert_at_nth: "k \<le> length xs \<Longrightarrow> insert_at k x xs ! k = x"
  by (simp add: insert_at_def nth_append)

lemma erase_at_insert_at: "k \<le> length xs \<Longrightarrow> erase_at k (insert_at k x xs) = xs"
  by (simp add: insert_at_def erase_at_def)

lemma insert_at_erase_at: "i < length xs \<Longrightarrow> insert_at i (xs ! i) (erase_at i xs) = xs"
  by (simp add: insert_at_def erase_at_def id_take_nth_drop [symmetric])

lemma length_erase_at: "i < length xs \<Longrightarrow> length (erase_at i xs) = length xs - 1"
  by (simp add: erase_at_def)

lemma length_insert_at: "k \<le> length xs \<Longrightarrow> length (insert_at k x xs) = Suc (length xs)"
  by (simp add: insert_at_def)

lemma insert_at_end: "insert_at (length xs) x xs = xs @ [x]"
  by (simp add: insert_at_def)

subsection \<open>moveRuleToTop\<close>

text \<open>
  Claim C7. On a non-empty chain \<open>[e0, ..., e(n-1)]\<close>, written \<open>es @ [e]\<close>,
  \<^verbatim>\<open>moveRuleToTop\<close> publishes \<open>e # es\<close>: the last entry is removed and put back at
  position 0. On an empty chain nothing is published and the state stays as it was.
\<close>

theorem moveRuleToTop_rotates:
  "(ruleactions st = es @ [e] \<longrightarrow> moveRuleToTop st = st\<lparr>ruleactions := e # es\<rparr>) \<and>
   (ruleactions st = [] \<longrightarrow> moveRuleToTop st = st)"
  by (simp add: moveRuleToTop_def insert_at_def Let_def)

theorem moveRuleToTop_witness:
  "moveRuleToTop (sample_state [rule_A, rule_B, rule_C]) = sample_state [rule_C, rule_A, rule_B]
   \<and> moveRuleToTop (sample_state []) = sample_state []"
  using moveRuleToTop_rotates [of "sample_state [rule_A, rule_B, rule_C]" "[rule_A, rule_B]" rule_C]
    moveRuleToTop_rotates [of "sample_state []"]
  by (simp add: sample_state_def)

subsection \<open>mvRule\<close>

lemma mvRule_out_of_range:
  "length (ruleactions st) \<le> unat from \<or> length (ruleactions st) < unat to \<Longrightarrow>
     mvRule st from to = st\<lparr>g_outputBuffer := move_invalid_index\<rparr>"
  by (simp add: mvRule_def)

text \<open>
  In range, the two branches of the code (\<^verbatim>\<open>push_back\<close> when \<open>to\<close> is past the end of
  the shortened vector, \<^verbatim>\<open>insert\<close> otherwise) are one insertion, at \<open>to - 1\<close> when
  \<open>from < to\<close> and at \<open>to\<close> otherwise.
\<close>

lemma mvRule_in_range:
  assumes "unat from < length (ruleactions st)" and "unat to \<le> length (ruleactions st)"
  shows "mvRule st from to =
     st\<lparr>ruleactions := insert_at (if unat from < unat to then unat to - 1 else unat to)
            (ruleactions st ! unat from) (erase_at (unat from) (ruleactions st))\<rparr>"
proof (cases "unat to = length (ruleactions st)")
  case True
  with assms have "from < to" by (simp add: word_less_nat_alt)
  with True assms show ?thesis
    by (simp add: mvRule_def Let_def length_erase_at word_less_nat_alt insert_at_end [symmetric])
next
  case False
  with assms have "unat to \<le> length (ruleactions st) - 1" by simp
  moreover have "from < to \<Longrightarrow> unat (to - 1) = unat to - 1"
    by (rule unat_minus_one) auto
  ultimately show ?thesis using assms
    by (simp add: mvRule_def Let_def length_erase_at word_less_nat_alt)
qed

text \<open>
  Claim C5. For a chain of length \<open>L\<close>: with \<open>from \<ge> L\<close> or \<open>to > L\<close>, \<^verbatim>\<open>mvRule\<close> reports
  the invalid index and publishes nothing. With \<open>from < L\<close> and \<open>to \<le> L\<close> it removes the
  entry at \<open>from\<close> and puts it back at index \<open>k\<close>, which is \<open>to - 1\<close> when \<open>from < to\<close> and
  \<open>to\<close> otherwise: the published chain holds the moved entry at \<open>k\<close>, and without it is
  the old chain without the entry at \<open>from\<close>. \<^verbatim>\<open>mvRule(i, i)\<close> leaves the chain as it was.
\<close>

theorem mvRule_moves:
  "(length (ruleactions st) \<le> unat from \<or> length (ruleactions st) < unat to \<longrightarrow>
      mvRule st from to = st\<lparr>g_outputBuffer := move_invalid_index\<rparr>) \<and>
   (unat from < length (ruleactions st) \<and> unat to \<le> length (ruleactions st) \<longrightarrow>
      (let k = (if unat from < unat to then unat to - 1 else unat to);
           rules' = ruleactions (mvRule st from to)
       in mvRule st from to =
            st\<lparr>ruleactions := insert_at k (ruleactions st ! unat from)
                                 (erase_at (unat from) (ruleactions st))\<rparr>
          \<and> rules' ! k = ruleactions st ! unat from
          \<and> erase_at k rules' = erase_at (unat from) (ruleactions st)
          \<and> length rules' = length (ruleactions st))) \<and>
   ruleactions (mvRule st i i) = ruleactions st"
proof (intro conjI impI)
  assume "length (ruleactions st) \<le> unat from \<or> length (ruleactions st) < unat to"
  then show "mvRule st from to = st\<lparr>g_outputBuffer := move_invalid_index\<rparr>"
    by (rule mvRule_out_of_range)
next
  assume a: "unat from < length (ruleactions st) \<and> unat to \<le> length (ruleactions st)"
  define k where "k = (if unat from < unat to then unat to - 1 else unat to)"
  have k: "k \<le> length (erase_at (unat from) (ruleactions st))"
    using a by (auto simp: k_def length_erase_at)
  have eq: "mvRule st from to =
      st\<lparr>ruleactions := insert_at k (ruleactions st ! unat from)
                                 (erase_at (unat from) (ruleactions st))\<rparr>"
    using a mvRule_in_range [of "from" st to] by (simp add: k_def)
  have len: "length (insert_at k (ruleactions st ! unat from) (erase_at (unat from) (ruleactions st)))
      = length (ruleactions st)"
    using a k by (auto simp: length_insert_at length_erase_at)
  show "let k = (if unat from < unat to then unat to - 1 else unat to);
           rules' = ruleactions (mvRule st from to)
       in mvRule st from to =
            st\<lparr>ruleactions := insert_at k (ruleactions st ! unat from)
                                 (erase_at (unat from) (ruleactions st))\<rparr>
          \<and> rules' ! k = ruleactions st ! unat from
          \<and> erase_at k rules' = erase_at (unat from) (ruleactions st)
          \<and> length rules' = length (ruleactions st)"
    unfolding Let_def k_def [symmetric]
    using k len by (simp add: eq insert_at_nth erase_at_insert_at)
next
  show "ruleactions (mvRule st i i) = ruleactions st"
  proof (cases "unat i < length (ruleactions st)")
    case True
    then show ?thesis
      using mvRule_in_range [of i st i] by (simp add: insert_at_erase_at)
  next
    case False
    then show ?thesis by (simp add: mvRule_def)
  qed
qed

theorem mvRule_moves_witness:
  "ruleactions (mvRule (sample_state [rule_A, rule_B, rule_C, rule_A2]) 0 2)
      = [rule_B, rule_A, rule_C, rule_A2]
   \<and> ruleactions (mvRule (sample_state [rule_A, rule_B, rule_C, rule_A2]) 0 4)
      = [rule_B, rule_C, rule_A2, rule_A]
   \<and> ruleactions (mvRule (sample_state [rule_A, rule_B, rule_C, rule_A2]) 3 1)
      = [rule_A, rule_A2, rule_B, rule_C]
   \<and> mvRule (sample_state [rule_A, rule_B, rule_C, rule_A2]) 4 0
      = (sample_state [rule_A, rule_B, rule_C, rule_A2])\<lparr>g_outputBuffer := move_invalid_index\<rparr>
   \<and> mvRule (sample_state [rule_A, rule_B, rule_C, rule_A2]) 1 5
      = (sample_state [rule_A, rule_B, rule_C, rule_A2])\<lparr>g_outputBuffer := move_invalid_index\<rparr>"
  using mvRule_moves [of "sample_state [rule_A, rule_B, rule_C, rule_A2]" 0 2]
    mvRule_moves [of "sample_state [rule_A, rule_B, rule_C, rule_A2]" 0 4]
    mvRule_moves [of "sample_state [rule_A, rule_B, rule_C, rule_A2]" 3 1]
    mvRule_moves [of "sample_state [rule_A, rule_B, rule_C, rule_A2]" 4 0]
    mvRule_moves [of "sample_state [rule_A, rule_B, rule_C, rule_A2]" 1 5]
  by (simp add: sample_state_def insert_at_def erase_at_def Let_def)

text \<open>
  Moving an entry down and then back: for \<open>from < to\<close>, the entry lands at \<open>to - 1\<close>, and
  moving it from there to \<open>from\<close> restores the state.
\<close>

lemma mvRule_round_trip:
  assumes "from < to" and "unat to \<le> length (ruleactions st)"
  shows "mvRule (mvRule st from to) (to - 1) from = st"
proof -
  let ?rules = "ruleactions st"
  from assms(1) have ft: "unat from < unat to" by (simp add: word_less_nat_alt)
  with assms(2) have f: "unat from < length ?rules" by simp
  have t1: "unat (to - 1) = unat to - 1"
    using assms(1) by (intro unat_minus_one) auto
  let ?st' = "st\<lparr>ruleactions :=
      insert_at (unat to - 1) (?rules ! unat from) (erase_at (unat from) ?rules)\<rparr>"
  have k: "unat to - 1 \<le> length (erase_at (unat from) ?rules)"
    using assms(2) f by (simp add: length_erase_at)
  have first: "mvRule st from to = ?st'"
    using mvRule_in_range [OF f assms(2)] ft by simp
  have len: "length (ruleactions ?st') = length ?rules"
    using k f by (auto simp: length_insert_at length_erase_at)
  have "mvRule ?st' (to - 1) from
      = ?st'\<lparr>ruleactions := insert_at (unat from) (ruleactions ?st' ! unat (to - 1))
                                 (erase_at (unat (to - 1)) (ruleactions ?st'))\<rparr>"
    using mvRule_in_range [of "to - 1" ?st' "from"] len f assms(2) ft t1 by auto
  also have "\<dots> = st"
    using k f by (simp add: t1 insert_at_nth erase_at_insert_at insert_at_erase_at)
  finally show ?thesis by (simp only: first)
qed

subsection \<open>The MaxQPSIPRule and QTypeRule constructors\<close>

text \<open>
  Claim C9. In a call of the \<^verbatim>\<open>MaxQPSIPRule\<close> constructor every optional parameter that
  is left out takes its default (\<open>burst\<close> the given \<open>qps\<close>, \<open>ipv4trunc\<close> 32, \<open>ipv6trunc\<close> 64,
  \<open>expiration\<close> 300, \<open>cleanupDelay\<close> 60, \<open>scanFraction\<close> 10), and every one that is given
  is passed on as it is.
\<close>

theorem MaxQPSIPRule_defaults:
  "lua_MaxQPSIPRule qps ipv4trunc ipv6trunc burst expiration cleanupDelay scanFraction =
     (MaxQPSIPRule qps
        (case burst of None \<Rightarrow> qps | Some v \<Rightarrow> v)
        (case ipv4trunc of None \<Rightarrow> 32 | Some v \<Rightarrow> v)
        (case ipv6trunc of None \<Rightarrow> 64 | Some v \<Rightarrow> v)
        (case expiration of None \<Rightarrow> 300 | Some v \<Rightarrow> v)
        (case cleanupDelay of None \<Rightarrow> 60 | Some v \<Rightarrow> v)
        (case scanFraction of None \<Rightarrow> 10 | Some v \<Rightarrow> v) :: ('m, 'n) DNSRule)"
  by (simp add: lua_MaxQPSIPRule_def get_value_or_def)

theorem MaxQPSIPRule_defaults_witness:
  "(lua_MaxQPSIPRule 50 None None None None None None :: (string, string) DNSRule)
      = MaxQPSIPRule 50 50 32 64 300 60 10
   \<and> (lua_MaxQPSIPRule 50 (Some 24) (Some 56) (Some 100) (Some 120) (Some 30) (Some 5)
        :: (string, string) DNSRule)
      = MaxQPSIPRule 50 100 24 56 120 30 5
   \<and> (lua_MaxQPSIPRule 50 None (Some 48) None None (Some 30) None :: (string, string) DNSRule)
      = MaxQPSIPRule 50 50 32 48 300 30 10"
  using MaxQPSIPRule_defaults [of 50 None None None None None None]
    MaxQPSIPRule_defaults [of 50 "Some 24" "Some 56" "Some 100" "Some 120" "Some 30" "Some 5"]
    MaxQPSIPRule_defaults [of 50 None "Some 48" None None "Some 30" None]
  by simp

text \<open>
  Claim C10. A number given to the \<^verbatim>\<open>QTypeRule\<close> constructor is never refused: the
  predicate is built for every 32-bit argument, with the qtype equal to the argument
  modulo \<open>2 ^ 16\<close> (so an argument above 65535 is accepted and matches another type).
\<close>

theorem QTypeRule_narrows:
  "\<exists>qtype. (lua_QTypeRule chartocode (UInt dir) :: lua_error + ('m, 'n) DNSRule)
              = Inr (QTypeRule qtype)
     \<and> unat qtype = unat dir mod 2 ^ 16"
  by (simp add: lua_QTypeRule_def unsigned_ucast_eq take_bit_eq_mod)

theorem QTypeRule_narrows_witness:
  "(lua_QTypeRule sample_chartocode (UInt 70000) :: lua_error + (string, string) DNSRule)
      = Inr (QTypeRule 4464)
   \<and> (70000 :: nat) mod 2 ^ 16 = 4464"
  using QTypeRule_narrows [of sample_chartocode 70000, where 'm = string and 'n = string]
  by (simp add: lua_QTypeRule_def)

subsection \<open>rmRule\<close>

lemma erase_remove_if_none: "\<forall>a\<in>set xs. \<not> pred a \<Longrightarrow> erase_remove_if pred xs = xs"
  by (simp add: erase_remove_if_def)

lemma erase_remove_if_shorter:
  "\<exists>a\<in>set xs. pred a \<Longrightarrow> length (erase_remove_if pred xs) < length xs"
proof -
  assume "\<exists>a\<in>set xs. pred a"
  then obtain a where "a \<in> set xs" and "\<not> \<not> pred a" by auto
  then have "length (filter (\<lambda>a. \<not> pred a) xs) < length xs"
    by (rule length_filter_less)
  then show ?thesis by (simp add: erase_remove_if_def)
qed

lemma erase_result_is_end_unchanged: "erase_result_is_end ord xs xs"
  by (cases ord) (simp_all add: erase_result_is_end_def)

lemma erase_result_is_end_EndThenErase:
  "erase_result_is_end EndThenErase before after \<longleftrightarrow> length after = length before"
  by (simp add: erase_result_is_end_def)

lemma erase_result_is_end_EraseThenEnd: "erase_result_is_end EraseThenEnd before after"
  by (simp add: erase_result_is_end_def)

text \<open>
  Claim C4. Called with a string that parses as a UUID no entry has, or with a string
  that does not parse and that no entry has as its name, \<^verbatim>\<open>rmRule\<close> sets the output
  buffer to "Error: no rule matched" and publishes nothing: the state differs from the
  old one in the output buffer only. This holds for either order in which the operands
  of the comparison are evaluated.
\<close>

theorem rmRule_not_found:
  "(getUniqueID str = Some uuid \<and> (\<forall>a\<in>set (ruleactions st). d_id a \<noteq> uuid) \<longrightarrow>
      rmRule ord getUniqueID st (Str str) = st\<lparr>g_outputBuffer := no_rule_matched\<rparr>) \<and>
   (getUniqueID str = None \<and> (\<forall>a\<in>set (ruleactions st). d_name a \<noteq> str) \<longrightarrow>
      rmRule ord getUniqueID st (Str str) = st\<lparr>g_outputBuffer := no_rule_matched\<rparr>)"
  by (simp add: rmRule_def Let_def erase_remove_if_none erase_result_is_end_unchanged)

theorem rmRule_not_found_witness:
  "rmRule EndThenErase sample_getUniqueID (sample_state [rule_A, rule_B])
       (Str ''00000000-0000-0000-0000-000000000009'')
     = (sample_state [rule_A, rule_B])\<lparr>g_outputBuffer := no_rule_matched\<rparr>
   \<and> rmRule EraseThenEnd sample_getUniqueID (sample_state [rule_A, rule_B]) (Str ''zone'')
     = (sample_state [rule_A, rule_B])\<lparr>g_outputBuffer := no_rule_matched\<rparr>"
  using rmRule_not_found [of sample_getUniqueID "''00000000-0000-0000-0000-000000000009''" 9
      "sample_state [rule_A, rule_B]" EndThenErase]
    rmRule_not_found [of sample_getUniqueID "''zone''" 9
      "sample_state [rule_A, rule_B]" EraseThenEnd]
  by (simp add: sample_defs)

lemma rmRule_EndThenErase_uuid:
  assumes "getUniqueID str = Some uuid" and "\<exists>a\<in>set (ruleactions st). d_id a = uuid"
  shows "rmRule EndThenErase getUniqueID st (Str str)
        = st\<lparr>ruleactions := filter (\<lambda>a. d_id a \<noteq> uuid) (ruleactions st)\<rparr>"
proof -
  have "length (erase_remove_if (\<lambda>a. d_id a = uuid) (ruleactions st)) < length (ruleactions st)"
    using assms(2) by (rule erase_remove_if_shorter)
  with assms(1) show ?thesis
    by (simp add: rmRule_def Let_def erase_result_is_end_EndThenErase)
       (simp add: erase_remove_if_def)
qed

lemma rmRule_EndThenErase_name:
  assumes "getUniqueID str = None" and "\<exists>a\<in>set (ruleactions st). d_name a = str"
  shows "rmRule EndThenErase getUniqueID st (Str str)
        = st\<lparr>ruleactions := filter (\<lambda>a. d_name a \<noteq> str) (ruleactions st)\<rparr>"
proof -
  have "length (erase_remove_if (\<lambda>a. d_name a = str) (ruleactions st)) < length (ruleactions st)"
    using assms(2) by (rule erase_remove_if_shorter)
  with assms(1) show ?thesis
    by (simp add: rmRule_def Let_def erase_result_is_end_EndThenErase)
       (simp add: erase_remove_if_def)
qed

text \<open>
  Claim C3, as the code has it. \<^verbatim>\<open>rmRule\<close> first tries the string as a UUID. With the end
  iterator of the comparison read before the erase runs: when the string parses and
  some entry has that id, the chain without the entries of that id is published; when it
  does not parse and some entry has that name, the chain without every entry of that
  name is published, not only without the first of them.
\<close>

theorem rmRule_removes_matching:
  "(getUniqueID str = Some uuid \<and> (\<exists>a\<in>set (ruleactions st). d_id a = uuid) \<longrightarrow>
      rmRule EndThenErase getUniqueID st (Str str)
        = st\<lparr>ruleactions := filter (\<lambda>a. d_id a \<noteq> uuid) (ruleactions st)\<rparr>) \<and>
   (getUniqueID str = None \<and> (\<exists>a\<in>set (ruleactions st). d_name a = str) \<longrightarrow>
      rmRule EndThenErase getUniqueID st (Str str)
        = st\<lparr>ruleactions := filter (\<lambda>a. d_name a \<noteq> str) (ruleactions st)\<rparr>)"
  using rmRule_EndThenErase_uuid [of getUniqueID str uuid st]
    rmRule_EndThenErase_name [of getUniqueID str st]
  by blast

theorem rmRule_removes_witness:
  "rmRule EndThenErase sample_getUniqueID (sample_state [rule_A, rule_B, rule_C])
       (Str ''00000000-0000-0000-0000-000000000001'')
     = sample_state [rule_B, rule_C]
   \<and> rmRule EndThenErase sample_getUniqueID (sample_state [rule_A, rule_B, rule_A2]) (Str ''a'')
     = sample_state [rule_B]"
  using rmRule_removes_matching [of sample_getUniqueID "''00000000-0000-0000-0000-000000000001''" 1
      "sample_state [rule_A, rule_B, rule_C]"]
    rmRule_removes_matching [of sample_getUniqueID "''a''" 1
      "sample_state [rule_A, rule_B, rule_A2]"]
  by (simp add: sample_defs)

text \<open>
  The claim as stated has the first entry of the name removed. On a chain with two
  entries named "a", removing the first leaves the second; the code publishes the chain
  without both, or (with the end iterator read after the erase) publishes nothing.
\<close>

theorem rmRule_first_by_name_counterexample:
  "sample_getUniqueID ''a'' = None
   \<and> spec_removeById sample_getUniqueID [rule_A, rule_B, rule_A2] ''a'' = Some [rule_B, rule_A2]
   \<and> ruleactions (rmRule EndThenErase sample_getUniqueID
         (sample_state [rule_A, rule_B, rule_A2]) (Str ''a'')) = [rule_B]
   \<and> ruleactions (rmRule EraseThenEnd sample_getUniqueID
         (sample_state [rule_A, rule_B, rule_A2]) (Str ''a'')) = [rule_A, rule_B, rule_A2]
   \<and> [rule_B] \<noteq> [rule_B, rule_A2] \<and> [rule_A, rule_B, rule_A2] \<noteq> [rule_B, rule_A2]"
  by (simp add: sample_defs spec_removeById_def rmRule_def erase_remove_if_def
      erase_result_is_end_def)

text \<open>
  With the end iterator read after the erase, the comparison always holds: every call
  with a string reports "no rule matched" and publishes nothing, whatever the chain.
\<close>

lemma rmRule_EraseThenEnd_never_publishes:
  "rmRule EraseThenEnd getUniqueID st (Str str) = st\<lparr>g_outputBuffer := no_rule_matched\<rparr>"
  by (simp add: rmRule_def Let_def erase_result_is_end_EraseThenEnd split: option.split)

text \<open>
  Where exactly one entry matches, removing every match and removing the first match
  are the same; ids are unique in a chain, so by UUID the code and the specification's
  wording agree.
\<close>

lemma remove_first_unique:
  "length (filter pred xs) = 1 \<Longrightarrow> remove_first pred xs = Some (filter (\<lambda>a. \<not> pred a) xs)"
proof (induction xs)
  case Nil
  then show ?case by simp
next
  case (Cons x xs)
  show ?case
  proof (cases "pred x")
    case True
    with Cons.prems have "filter pred xs = []" by simp
    then have "filter (\<lambda>a. \<not> pred a) xs = xs" by (simp add: filter_empty_conv)
    with True show ?thesis by simp
  next
    case False
    with Cons show ?thesis by simp
  qed
qed

lemma distinct_ids_one_match:
  "distinct (map d_id rules) \<Longrightarrow> \<exists>a\<in>set rules. d_id a = uuid \<Longrightarrow>
     length (filter (\<lambda>a. d_id a = uuid) rules) = 1"
proof (induction rules)
  case Nil
  then show ?case by simp
next
  case (Cons r rules)
  show ?case
  proof (cases "d_id r = uuid")
    case True
    from Cons.prems(1) have "d_id r \<notin> d_id ` set rules" by simp
    then have "\<forall>a\<in>set rules. d_id a \<noteq> d_id r" by (metis imageI)
    with True have "\<forall>a\<in>set rules. d_id a \<noteq> uuid" by simp
    then have "filter (\<lambda>a. d_id a = uuid) rules = []" by (simp add: filter_empty_conv)
    with True show ?thesis by simp
  next
    case False
    with Cons show ?thesis by simp
  qed
qed

lemma rmRule_uuid_refines_spec:
  assumes "distinct (map d_id (ruleactions st))"
    and "getUniqueID str = Some uuid" and "\<exists>a\<in>set (ruleactions st). d_id a = uuid"
  shows "spec_removeById getUniqueID (ruleactions st) str
           = Some (ruleactions (rmRule EndThenErase getUniqueID st (Str str)))"
proof -
  have "ruleactions (rmRule EndThenErase getUniqueID st (Str str))
          = filter (\<lambda>a. d_id a \<noteq> uuid) (ruleactions st)"
    using assms(2,3) rmRule_EndThenErase_uuid [of getUniqueID str uuid st] by simp
  moreover have "remove_first (\<lambda>a. d_id a = uuid) (ruleactions st)
          = Some (filter (\<lambda>a. d_id a \<noteq> uuid) (ruleactions st))"
    using distinct_ids_one_match [OF assms(1,3)] by (rule remove_first_unique)
  ultimately show ?thesis using assms(2) by (simp add: spec_removeById_def)
qed

subsection \<open>getTopRules\<close>

lemma map_snd_collect_counts: "map snd (collect_counts pos rules) = [pos..<pos + length rules]"
proof (induction rules arbitrary: pos)
  case Nil
  then show ?case by simp
next
  case (Cons r rules)
  have "[pos..<Suc (pos + length rules)] = pos # [Suc pos..<Suc (pos + length rules)]"
    by (rule upt_conv_Cons) simp
  with Cons.IH [of "Suc pos"] show ?case by simp
qed

lemma collect_counts_entry:
  "(m, i) \<in> set (collect_counts pos rules) \<Longrightarrow>
     pos \<le> i \<and> i < pos + length rules \<and> m = d_matches (rules ! (i - pos))"
proof (induction rules arbitrary: pos)
  case Nil
  then show ?case by simp
next
  case (Cons r rules)
  show ?case
  proof (cases "(m, i) = (d_matches r, pos)")
    case True
    then show ?thesis by simp
  next
    case False
    with Cons.prems have "(m, i) \<in> set (collect_counts (Suc pos) rules)" by auto
    from Cons.IH [OF this] show ?thesis by (auto simp: nth_Cons')
  qed
qed

lemma map_nth_collect_counts: "map (\<lambda>e. rules ! snd e) (collect_counts 0 rules) = rules"
proof -
  have "map (\<lambda>e. rules ! snd e) (collect_counts 0 rules)
          = map ((!) rules) (map snd (collect_counts 0 rules))"
    by simp
  also have "\<dots> = rules"
    by (simp only: map_snd_collect_counts) (simp add: map_nth)
  finally show ?thesis .
qed

text \<open>
  The second loop on positions that are all inside the vector: it never throws, and it
  returns the entries of the first \<open>top' - cnt\<close> pairs when \<open>cnt < top'\<close>, of all pairs
  otherwise. Started with \<open>cnt = 0\<close> and \<open>top' = 0\<close> it is in the second case.
\<close>

lemma take_top_eq:
  "\<forall>e\<in>set es. snd e < length rules \<Longrightarrow>
     take_top rules top' cnt es
       = Inr (map (\<lambda>e. rules ! snd e) (if cnt < top' then take (top' - cnt) es else es))"
proof (induction es arbitrary: cnt)
  case Nil
  then show ?case by simp
next
  case (Cons e es)
  then have IH: "take_top rules top' (Suc cnt) es
       = Inr (map (\<lambda>e. rules ! snd e) (if Suc cnt < top' then take (top' - Suc cnt) es else es))"
    by simp
  from Cons.prems have e: "\<not> length rules \<le> snd e" by simp
  show ?case
  proof (cases "Suc cnt = top'")
    case True
    then have "cnt < top'" and "top' - cnt = Suc 0" by simp_all
    with e True show ?thesis by simp
  next
    case False
    show ?thesis
    proof (cases "cnt < top'")
      case True
      with False have "Suc cnt < top'" by simp
      with True e False IH show ?thesis by (simp add: take_Cons')
    next
      case False
      with e IH \<open>Suc cnt \<noteq> top'\<close> show ?thesis by simp
    qed
  qed
qed


lemma getTopRules_eq:
  assumes "sort_result (collect_counts 0 rules) (std_sort (collect_counts 0 rules))"
    and "top' = 0 \<or> allocates (unat top')"
  shows "getTopRules allocates std_sort rules top'
       = Inr (map (\<lambda>e. rules ! snd e)
               (if top' = 0 then std_sort (collect_counts 0 rules)
                else take (unat top') (std_sort (collect_counts 0 rules))))"
proof -
  from assms(1) have "set (std_sort (collect_counts 0 rules)) = set (collect_counts 0 rules)"
    by (auto simp: sort_result_def dest: mset_eq_setD)
  then have "\<forall>e\<in>set (std_sort (collect_counts 0 rules)). snd e < length rules"
    using collect_counts_entry [of _ _ 0 rules] by fastforce
  moreover from assms(2) have "reserve allocates (unat top') = Inr ()"
    by (auto simp: reserve_def)
  ultimately show ?thesis
    by (simp add: getTopRules_def take_top_eq unat_gt_0)
qed



text \<open>
  Claim C1, first half, as the code has it. With \<open>top = 0\<close> the loop never meets
  \<^verbatim>\<open>count == top\<close> (the count is 1 at the first test), so \<^verbatim>\<open>getTopRules\<close> returns every
  entry of the chain: the result is a rearrangement of the whole chain, empty only for
  the empty chain. Nothing is reserved for \<open>top = 0\<close>, so this holds whatever the
  allocator grants.
\<close>

theorem getTopRules_zero_returns_all:
  assumes "sort_result (collect_counts 0 rules) (std_sort (collect_counts 0 rules))"
  shows "\<exists>results. getTopRules allocates std_sort rules 0 = Inr results
            \<and> mset results = mset rules"
proof -
  let ?es = "std_sort (collect_counts 0 rules)"
  have "getTopRules allocates std_sort rules 0 = Inr (map (\<lambda>e. rules ! snd e) ?es)"
    using assms
      getTopRules_eq [where std_sort = std_sort and rules = rules and top' = 0
        and allocates = allocates]
    by simp
  moreover have "mset (map (\<lambda>e. rules ! snd e) ?es)
      = mset (map (\<lambda>e. rules ! snd e) (collect_counts 0 rules))"
    using assms by (metis mset_map sort_result_def)
  ultimately show ?thesis by (simp only: map_nth_collect_counts) simp
qed

theorem getTopRules_zero_witness:
  "sort_result (collect_counts 0 [rule_A, rule_C]) (insertion_sort (collect_counts 0 [rule_A, rule_C]))
   \<and> getTopRules sample_allocates insertion_sort [rule_A, rule_C] 0 = Inr [rule_C, rule_A]"
proof -
  have h: "sort_result (collect_counts 0 [rule_A, rule_C])
             (insertion_sort (collect_counts 0 [rule_A, rule_C]))"
    by (simp add: sort_defs sample_defs)
  have v: "getTopRules sample_allocates insertion_sort [rule_A, rule_C] 0 = Inr [rule_C, rule_A]"
    by (simp add: sort_defs sample_defs)
  from getTopRules_zero_returns_all
         [where std_sort = insertion_sort and rules = "[rule_A, rule_C]"
            and allocates = sample_allocates] h v
  show ?thesis by simp
qed

text \<open>
  The second half of C1 holds: with \<open>top\<close> at least the length of the chain, every entry
  is returned (when the reservation for \<open>top\<close> entries is granted).
\<close>

lemma getTopRules_all_when_top_ge_length:
  assumes "sort_result (collect_counts 0 rules) (std_sort (collect_counts 0 rules))"
    and "length rules \<le> unat top'" and "top' = 0 \<or> allocates (unat top')"
  shows "\<exists>results. getTopRules allocates std_sort rules top' = Inr results
            \<and> mset results = mset rules"
proof -
  let ?es = "std_sort (collect_counts 0 rules)"
  have "length ?es = length (collect_counts 0 rules)"
    using assms(1) by (metis size_mset sort_result_def)
  also have "\<dots> = length rules"
    by (metis length_map map_nth_collect_counts)
  finally have "take (unat top') ?es = ?es" using assms(2) by simp
  then have "getTopRules allocates std_sort rules top' = Inr (map (\<lambda>e. rules ! snd e) ?es)"
    using assms(1,3)
      getTopRules_eq [where std_sort = std_sort and rules = rules and top' = top'
        and allocates = allocates]
    by simp
  moreover have "mset (map (\<lambda>e. rules ! snd e) ?es)
      = mset (map (\<lambda>e. rules ! snd e) (collect_counts 0 rules))"
    using assms(1) by (metis mset_map sort_result_def)
  ultimately show ?thesis by (simp only: map_nth_collect_counts) simp
qed

text \<open>
  On the chains of the examples above and below, the \<^verbatim>\<open>std::sort\<close> of the GNU library
  gives what the insertion sort gives.
\<close>

lemma gnu_std_sort_runs:
  "gnu_std_sort counts_before [(5, 0), (7, 1)] = [(7, 1), (5, 0)]"
  "gnu_std_sort counts_before [(5, 0), (5, 1)] = [(5, 0), (5, 1)]"
  "gnu_std_sort counts_before [(5, 0), (7, 1), (5, 2)] = [(7, 1), (5, 0), (5, 2)]"
  "gnu_std_sort counts_before
     [(5, 0), (5, 1), (5, 2), (5, 3), (5, 4), (5, 5), (5, 6), (5, 7), (5, 8), (5, 9),
      (5, 10), (5, 11), (5, 12), (5, 13), (5, 14), (5, 15), (5, 16)]
   = [(5, 8), (5, 16), (5, 15), (5, 14), (5, 13), (5, 12), (5, 11), (5, 10), (5, 9),
      (5, 0), (5, 7), (5, 6), (5, 5), (5, 4), (5, 3), (5, 2), (5, 1)]"
  by code_simp+

lemma collect_counts_samples:
  "collect_counts 0 [rule_A, rule_C] = [(5, 0), (7, 1)]"
  "collect_counts 0 [rule_A, rule_B] = [(5, 0), (5, 1)]"
  "collect_counts 0 [rule_A, rule_C, rule_B] = [(5, 0), (7, 1), (5, 2)]"
  "collect_counts 0 tied_chain
     = [(5, 0), (5, 1), (5, 2), (5, 3), (5, 4), (5, 5), (5, 6), (5, 7), (5, 8), (5, 9),
        (5, 10), (5, 11), (5, 12), (5, 13), (5, 14), (5, 15), (5, 16)]"
  by (simp_all add: sample_defs tied_chain_def tied_rule_def)

lemma gnu_std_sort_small:
  "gnu_std_sort counts_before (collect_counts 0 [rule_A, rule_C])
     = insertion_sort (collect_counts 0 [rule_A, rule_C])"
  "gnu_std_sort counts_before (collect_counts 0 [rule_A, rule_B])
     = insertion_sort (collect_counts 0 [rule_A, rule_B])"
  "gnu_std_sort counts_before (collect_counts 0 [rule_A, rule_C, rule_B])
     = insertion_sort (collect_counts 0 [rule_A, rule_C, rule_B])"
  by (simp_all only: collect_counts_samples gnu_std_sort_runs)
     (simp_all add: insertion_sort_def counts_before_def)




subsection \<open>makeRule\<close>

lemma fold_add:
  "fold (add addMask DNSName) srcs (smn, nmg)
     = (smn @ map DNSName (filter (\<lambda>src. addMask src = None) srcs),
        nmg @ List.map_filter addMask srcs)"
proof (induction srcs arbitrary: smn nmg)
  case Nil
  then show ?case by simp
next
  case (Cons src srcs)
  have step: "add addMask DNSName src (smn, nmg) =
      (case addMask src of
         Some m \<Rightarrow> (smn, nmg @ [m])
       | None \<Rightarrow> (smn @ [DNSName src], nmg))"
    by (simp add: add_def split: option.split)
  show ?case
    by (cases "addMask src") (simp_all add: step Cons.IH)
qed

text \<open>
  Claim C6. Every string is tried as a mask first and becomes a suffix when the mask
  parser refuses it. From a list of strings \<^verbatim>\<open>makeRule\<close> returns one predicate: when at
  least one mask was accepted, the netmask group of exactly the accepted masks, in
  order, matching the source address (\<open>src = True\<close>) and not quiet, with the suffixes
  dropped; when none was accepted, the suffix match over all the strings. A single
  string is the list of that one string. \<open>List.map_filter addMask srcs\<close> is the list of
  the masks of the strings the parser accepts.
\<close>

theorem makeRule_masks_win:
  "makeRule addMask DNSName (Var_string_array srcs) =
     (if List.map_filter addMask srcs = []
      then SuffixMatchNodeRule (map DNSName srcs) False
      else NetmaskGroupRule (List.map_filter addMask srcs) True False)
   \<and> makeRule addMask DNSName (Var_string src) =
     (case addMask src of
        None \<Rightarrow> SuffixMatchNodeRule [DNSName src] False
      | Some m \<Rightarrow> NetmaskGroupRule [m] True False)"
proof
  have none: "filter (\<lambda>src. addMask src = None) srcs = srcs"
    if "List.map_filter addMask srcs = []"
    using that by (induction srcs) (auto split: option.splits)
  show "makeRule addMask DNSName (Var_string_array srcs) =
     (if List.map_filter addMask srcs = []
      then SuffixMatchNodeRule (map DNSName srcs) False
      else NetmaskGroupRule (List.map_filter addMask srcs) True False)"
    by (simp add: makeRule_def fold_add none)
  show "makeRule addMask DNSName (Var_string src) =
     (case addMask src of
        None \<Rightarrow> SuffixMatchNodeRule [DNSName src] False
      | Some m \<Rightarrow> NetmaskGroupRule [m] True False)"
    by (simp add: makeRule_def add_def split: option.split)
qed

theorem makeRule_masks_win_witness:
  "makeRule sample_addMask id (Var_string_array [''10.0.0.0/8'', ''example.com''])
     = NetmaskGroupRule [''10.0.0.0/8''] True False
   \<and> makeRule sample_addMask id (Var_string_array [''example.com'', ''example.org''])
     = SuffixMatchNodeRule [''example.com'', ''example.org''] False
   \<and> makeRule sample_addMask id (Var_string ''example.com'')
     = SuffixMatchNodeRule [''example.com''] False"
  using makeRule_masks_win [of sample_addMask id "[''10.0.0.0/8'', ''example.com'']" "''example.com''"]
    makeRule_masks_win [of sample_addMask id "[''example.com'', ''example.org'']"]
  by (simp add: sample_addMask_def)

lemma map_filter_accepted:
  "set (List.map_filter addMask srcs) = {m. \<exists>src\<in>set srcs. addMask src = Some m}"
  by (force simp: List.map_filter_def image_iff)

text \<open>
  The other alternatives of the variant: a predicate is passed through, names become a
  suffix match.
\<close>

lemma makeRule_other_alternatives:
  "makeRule addMask DNSName (Var_DNSRule rule) = rule"
  "makeRule addMask DNSName (Var_DNSName name) = SuffixMatchNodeRule [name] False"
  "makeRule addMask DNSName (Var_DNSName_array names) = SuffixMatchNodeRule names False"
  by (simp_all add: makeRule_def)

subsection \<open>Constructors with a range check\<close>

text \<open>
  Claim C8 at the \<^verbatim>\<open>QTypeRule\<close> constructor. Its numeric argument is an \<^verbatim>\<open>unsigned int\<close> bound
  for the 16-bit qtype; 65537 exceeds the 16-bit range, and the constructor returns a
  predicate (for qtype 1) instead of an error.
\<close>

theorem QTypeRule_accepts_out_of_range:
  "(lua_QTypeRule sample_chartocode (UInt 65537) :: lua_error + (string, string) DNSRule)
     = Inr (QTypeRule 1)"
  by (simp add: lua_QTypeRule_def)

text \<open>
  The constructors that call \<^verbatim>\<open>checkParameterBound\<close> do what C8 says: an argument above
  the bound of its field is refused with the error that names the constructor, the value
  and the bound, before any predicate is built; an argument within the bound is
  accepted, and narrowing it to the field does not change its value. \<^verbatim>\<open>QClassRule\<close>
  refuses the very value \<^verbatim>\<open>QTypeRule\<close> accepts.
\<close>

lemma checked_8bit:
  "(lua_OpcodeRule v :: lua_error + ('m, 'n) DNSRule)
     = (if 255 < unat v then Inl (ParameterOutOfRange ''OpcodeRule'' (unat v) 255)
        else Inr (OpcodeRule (ucast v)))"
  "(lua_RCodeRule v :: lua_error + ('m, 'n) DNSRule)
     = (if 255 < unat v then Inl (ParameterOutOfRange ''RCodeRule'' (unat v) 255)
        else Inr (RCodeRule (ucast v)))"
  "(lua_ERCodeRule v :: lua_error + ('m, 'n) DNSRule)
     = (if 255 < unat v then Inl (ParameterOutOfRange ''ERCodeRule'' (unat v) 255)
        else Inr (ERCodeRule (ucast v)))"
  "(lua_EDNSVersionRule v :: lua_error + ('m, 'n) DNSRule)
     = (if 255 < unat v then Inl (ParameterOutOfRange ''EDNSVersionRule'' (unat v) 255)
        else Inr (EDNSVersionRule (ucast v)))"
  by (simp_all add: lua_OpcodeRule_def lua_RCodeRule_def lua_ERCodeRule_def
      lua_EDNSVersionRule_def and_then_def checkParameterBound_def uint8_max_def)

lemma checked_16bit:
  "(lua_QClassRule v :: lua_error + ('m, 'n) DNSRule)
     = (if 65535 < unat v then Inl (ParameterOutOfRange ''QClassRule'' (unat v) 65535)
        else Inr (QClassRule (ucast v)))"
  "(lua_DSTPortRule v :: lua_error + ('m, 'n) DNSRule)
     = (if 65535 < unat v then Inl (ParameterOutOfRange ''DSTPortRule'' (unat v) 65535)
        else Inr (DSTPortRule (ucast v)))"
  "(lua_EDNSOptionRule v :: lua_error + ('m, 'n) DNSRule)
     = (if 65535 < unat v then Inl (ParameterOutOfRange ''EDNSOptionRule'' (unat v) 65535)
        else Inr (EDNSOptionRule (ucast v)))"
  by (simp_all add: lua_QClassRule_def lua_DSTPortRule_def lua_EDNSOptionRule_def
      and_then_def checkParameterBound_def uint16_max_def)

lemma checked_RecordsCountRule:
  "(lua_RecordsCountRule s lo hi :: lua_error + ('m, 'n) DNSRule)
     = (if 255 < unat s then Inl (ParameterOutOfRange ''RecordsCountRule'' (unat s) 255)
        else if 65535 < unat lo then Inl (ParameterOutOfRange ''RecordsCountRule'' (unat lo) 65535)
        else if 65535 < unat hi then Inl (ParameterOutOfRange ''RecordsCountRule'' (unat hi) 65535)
        else Inr (RecordsCountRule (ucast s) (ucast lo) (ucast hi)))"
  by (simp add: lua_RecordsCountRule_def and_then_def checkParameterBound_def
      uint8_max_def uint16_max_def)

lemma checked_RecordsTypeCountRule:
  "(lua_RecordsTypeCountRule s t lo hi :: lua_error + ('m, 'n) DNSRule)
     = (if 255 < unat s then Inl (ParameterOutOfRange ''RecordsTypeCountRule'' (unat s) 255)
        else if 65535 < unat t then Inl (ParameterOutOfRange ''RecordsTypeCountRule'' (unat t) 65535)
        else if 65535 < unat lo then Inl (ParameterOutOfRange ''RecordsTypeCountRule'' (unat lo) 65535)
        else if 65535 < unat hi then Inl (ParameterOutOfRange ''RecordsTypeCountRule'' (unat hi) 65535)
        else Inr (RecordsTypeCountRule (ucast s) (ucast t) (ucast lo) (ucast hi)))"
  by (simp add: lua_RecordsTypeCountRule_def and_then_def checkParameterBound_def
      uint8_max_def uint16_max_def)

lemma narrow_in_range:
  "unat (v :: 64 word) \<le> 255 \<Longrightarrow> unat (ucast v :: 8 word) = unat v"
  "unat (v :: 64 word) \<le> 65535 \<Longrightarrow> unat (ucast v :: 16 word) = unat v"
  by (simp_all add: unsigned_ucast_eq take_bit_eq_mod)

lemma QClassRule_refuses_what_QTypeRule_accepts:
  "(lua_QClassRule 65537 :: lua_error + (string, string) DNSRule)
     = Inl (ParameterOutOfRange ''QClassRule'' 65537 65535)"
  by (simp add: lua_QClassRule_def and_then_def checkParameterBound_def uint16_max_def)

text \<open>A type name the table does not know is refused; a known one is looked up.\<close>

lemma QTypeRule_by_name:
  "(lua_QTypeRule sample_chartocode (Str ''AAAA'') :: lua_error + (string, string) DNSRule)
     = Inr (QTypeRule 28)"
  "(lua_QTypeRule sample_chartocode (Str ''bogus'') :: lua_error + (string, string) DNSRule)
     = Inl (UnableToConvert ''bogus'')"
  by (simp_all add: lua_QTypeRule_def sample_chartocode_def)

end
